theory Spec2Isabelle
  imports Main
begin

section \<open>The allocation engine \<open>agentAllocateSingle\<close>\<close>

text \<open>
  A shallow embedding of the allocation decision engine (the function
  \<open>agentAllocateSingle\<close> and its two helpers \<open>toMinutes\<close> and \<open>overlaps\<close>).

  Conventions of the embedding.
  \<^item> A JavaScript \<open>number\<close> that the engine computes with is an \<open>int\<close>; where the
    source can produce \<open>NaN\<close> (a malformed time text, a missing \<open>numSystems\<close>) the
    value is an \<open>int option\<close> and \<open>None\<close> stands for \<open>NaN\<close>/\<open>undefined\<close>.
  \<^item> A collection of the document store is the list of its documents in the order
    in which a query returns them. The \<open>id\<close> field of a document is its key, so the
    ids of one collection are pairwise different.
  \<^item> The store is transactional: the writes of one transaction take effect
    together, in program order. All reads of a transaction must come before its
    writes: a read after a write throws. An update of a missing document, like a
    throw inside the transaction, rejects the whole transaction, and a rejected
    transaction writes nothing.
  \<^item> The engine reads a snapshot and writes later. The embedding therefore takes two
    stores: \<open>snap\<close>, which the three reads see, and \<open>live\<close>, the store at the moment
    the writes are issued. An attempt that runs alone has \<open>live = snap\<close>.
  \<^item> The fields \<open>role\<close> and \<open>purpose\<close> of a request, and the server time stamps
    \<open>createdAt\<close>/\<open>updatedAt\<close>, are never read by the engine and are left out.
\<close>

subsection \<open>Documents\<close>

datatype SystemType = I7 | I9

datatype SystemStatus = Available | Occupied | Maintenance | Reserved

datatype RequestStatus = Pending | Accepted | Rejected

record RequestDoc =
  rq_id :: string
  rq_loginId :: string
  rq_requesterName :: string
  rq_date :: string
  rq_inTime :: string
  rq_outTime :: string
  rq_numSystems :: "int option"
  rq_status :: RequestStatus

record AllocationDoc =
  al_id :: string
  al_requestId :: string
  al_loginId :: string
  al_requesterName :: string
  al_systems :: "int list"
  al_date :: string
  al_inTime :: string
  al_outTime :: string
  al_createdBy :: string

record SystemDoc =
  sys_id :: string
  systemNumber :: int
  sys_type :: SystemType
  sys_status :: SystemStatus

record Store =
  requests :: "RequestDoc list"
  systemsColl :: "SystemDoc list"
  allocationsColl :: "AllocationDoc list"

definition RESERVED_I7 :: nat where
  "RESERVED_I7 = 2"

definition RESERVED_I9 :: nat where
  "RESERVED_I9 = 3"

subsection \<open>Time windows\<close>

text \<open>\<open>t.split(":")\<close>: the fields between the colons; the empty text has one empty field.\<close>

fun splitColon :: "string \<Rightarrow> string list" where
  "splitColon [] = [[]]"
| "splitColon (c # cs) =
     (if c = CHR '':'' then [] # splitColon cs
      else (case splitColon cs of [] \<Rightarrow> [[c]] | w # ws \<Rightarrow> (c # w) # ws))"

text \<open>The value of a decimal digit; no value for any other character.\<close>

definition digitValue :: "char \<Rightarrow> int option" where
  "digitValue c = map_of (zip ''0123456789'' [0, 1, 2, 3, 4, 5, 6, 7, 8, 9]) c"

fun numberFrom :: "int \<Rightarrow> string \<Rightarrow> int option" where
  "numberFrom acc [] = Some acc"
| "numberFrom acc (c # cs) =
     (case digitValue c of None \<Rightarrow> None | Some d \<Rightarrow> numberFrom (acc * 10 + d) cs)"

text \<open>
  \<open>Number\<close> on a field of a time text. A text of decimal digits has its decimal
  value (the empty text has the value 0, as in JavaScript); every other text is
  taken as \<open>NaN\<close>. Time texts are of the form \<open>HH:mm\<close>.
\<close>

definition Number :: "string \<Rightarrow> int option" where
  "Number t = numberFrom 0 t"

text \<open>
  \<open>const [h, m] = t.split(":").map(Number); return h * 60 + m\<close>. A missing second
  field leaves \<open>m\<close> undefined and the sum \<open>NaN\<close>; fields after the second are ignored.
\<close>

definition toMinutes :: "string \<Rightarrow> int option" where
  "toMinutes t =
     (case map Number (splitColon t) of
        Some h # Some m # _ \<Rightarrow> Some (h * 60 + m)
      | _ \<Rightarrow> None)"

text \<open>
  \<open>Math.max(aS, bS) < Math.min(aE, bE)\<close>. With a \<open>NaN\<close> argument \<open>Math.max\<close> or
  \<open>Math.min\<close> is \<open>NaN\<close> and the comparison is false.
\<close>

definition overlaps :: "int option \<Rightarrow> int option \<Rightarrow> int option \<Rightarrow> int option \<Rightarrow> bool" where
  "overlaps aS aE bS bE =
     (case (aS, aE, bS, bE) of
        (Some a, Some b, Some c, Some d) \<Rightarrow> max a c < min b d
      | _ \<Rightarrow> False)"

subsection \<open>Outcomes\<close>

datatype Reason = request_not_found | not_pending | no_feasible_plan

datatype Mode = direct | minimal_reshuffle

record Move =
  moveAllocationId :: string
  moveFrom :: int
  moveTo :: int

text \<open>
  What the call yields: one of the two objects the source returns, or \<open>Threw\<close> when
  the promise is rejected because a write or the transaction was rejected.
\<close>

datatype Outcome = Ok Mode "int list" "Move list" | Failed Reason | Threw

subsection \<open>The store's operations\<close>

definition getRequest :: "RequestDoc list \<Rightarrow> string \<Rightarrow> RequestDoc option" where
  "getRequest docs k = find (\<lambda>r. rq_id r = k) docs"

definition updateRequestStatus :: "string \<Rightarrow> RequestStatus \<Rightarrow> RequestDoc list \<Rightarrow> RequestDoc list" where
  "updateRequestStatus k st docs = map (\<lambda>r. if rq_id r = k then r\<lparr>rq_status := st\<rparr> else r) docs"

definition getAllocation :: "AllocationDoc list \<Rightarrow> string \<Rightarrow> AllocationDoc option" where
  "getAllocation docs k = find (\<lambda>a. al_id a = k) docs"

definition updateSystems :: "string \<Rightarrow> int list \<Rightarrow> AllocationDoc list \<Rightarrow> AllocationDoc list" where
  "updateSystems k sys docs = map (\<lambda>a. if al_id a = k then a\<lparr>al_systems := sys\<rparr> else a) docs"

text \<open>\<open>tx.set\<close>: the document replaces the one with its key, or is new in the collection.\<close>

definition setAllocation :: "AllocationDoc \<Rightarrow> AllocationDoc list \<Rightarrow> AllocationDoc list" where
  "setAllocation d docs =
     (if getAllocation docs (al_id d) = None then docs @ [d]
      else map (\<lambda>a. if al_id a = al_id d then d else a) docs)"

subsection \<open>The planning phase\<close>

text \<open>\<open>xs.slice(-k)\<close>: the last \<open>k\<close> elements; \<open>slice(-0)\<close> is the whole array.\<close>

definition sliceLast :: "nat \<Rightarrow> 'a list \<Rightarrow> 'a list" where
  "sliceLast k xs = (if k = 0 then xs else drop (length xs - k) xs)"

definition i7Nums :: "SystemDoc list \<Rightarrow> int list" where
  "i7Nums systems = sort (map systemNumber (filter (\<lambda>s. sys_type s = I7) systems))"

definition i9Nums :: "SystemDoc list \<Rightarrow> int list" where
  "i9Nums systems = sort (map systemNumber (filter (\<lambda>s. sys_type s = I9) systems))"

definition reservedI7 :: "SystemDoc list \<Rightarrow> int set" where
  "reservedI7 systems = set (sliceLast RESERVED_I7 (i7Nums systems))"

definition reservedI9 :: "SystemDoc list \<Rightarrow> int set" where
  "reservedI9 systems = set (sliceLast RESERVED_I9 (i9Nums systems))"

text \<open>
  \<open>sys.type === "i7" ? reservedI7.has(sys.systemNumber) : reservedI9.has(sys.systemNumber)\<close>,
  for a system \<open>sys\<close> of the pool \<open>systems\<close>.
\<close>

definition isRes :: "SystemDoc list \<Rightarrow> SystemDoc \<Rightarrow> bool" where
  "isRes systems sys =
     (if sys_type sys = I7 then systemNumber sys \<in> reservedI7 systems
      else systemNumber sys \<in> reservedI9 systems)"

text \<open>The window of a commitment overlaps the window \<open>[s, e)\<close>.\<close>

definition overlapsAlloc :: "int option \<Rightarrow> int option \<Rightarrow> AllocationDoc \<Rightarrow> bool" where
  "overlapsAlloc s e a = overlaps s e (toMinutes (al_inTime a)) (toMinutes (al_outTime a))"

text \<open>The set \<open>busy\<close>: the systems of the commitments that overlap the window.\<close>

definition busySet :: "AllocationDoc list \<Rightarrow> int option \<Rightarrow> int option \<Rightarrow> int set" where
  "busySet allocations s e = set (concat (map al_systems (filter (overlapsAlloc s e) allocations)))"

text \<open>The list \<open>nonReservedFree\<close>, in the order of \<open>systems\<close>.\<close>

definition nonReservedFree :: "SystemDoc list \<Rightarrow> int set \<Rightarrow> int list" where
  "nonReservedFree systems busy =
     map systemNumber
       (filter (\<lambda>sys. \<not> isRes systems sys \<and> systemNumber sys \<notin> busy \<and> sys_status sys \<noteq> Maintenance)
          systems)"

text \<open>\<open>Math.max(1, req.numSystems || 1)\<close>: a missing or zero demand is falsy.\<close>

definition need :: "RequestDoc \<Rightarrow> int" where
  "need req = max 1 (case rq_numSystems req of None \<Rightarrow> 1 | Some n \<Rightarrow> if n = 0 then 1 else n)"

text \<open>
  \<open>sysToOverlaps.get(n) || []\<close>: the commitments that overlap the window and hold
  \<open>n\<close>, in the order of \<open>allocations\<close>. (The source lists a commitment once for each
  time \<open>n\<close> stands in its systems; the loop that reads the list stops at the first
  commitment with a target and changes nothing before, so the repetitions are
  without effect.)
\<close>

definition sysToOverlaps :: "AllocationDoc list \<Rightarrow> int option \<Rightarrow> int option \<Rightarrow> int \<Rightarrow> AllocationDoc list" where
  "sysToOverlaps allocations s e n =
     filter (\<lambda>a. overlapsAlloc s e a \<and> n \<in> set (al_systems a)) allocations"

definition nonReservedAll :: "SystemDoc list \<Rightarrow> int list" where
  "nonReservedAll systems = map systemNumber (filter (\<lambda>sys. \<not> isRes systems sys) systems)"

text \<open>
  The set \<open>busyForAlloc\<close>: the systems of the other commitments (by id) whose window
  overlaps the window of \<open>alloc\<close>, read from the scratch copies \<open>allocations\<close>.
\<close>

definition busyForAlloc :: "AllocationDoc list \<Rightarrow> AllocationDoc \<Rightarrow> int set" where
  "busyForAlloc allocations alloc =
     set (concat (map al_systems
       (filter (\<lambda>a. al_id a \<noteq> al_id alloc \<and>
                    overlapsAlloc (toMinutes (al_inTime alloc)) (toMinutes (al_outTime alloc)) a)
          allocations)))"

text \<open>
  The inner loop \<open>for (const alloc of overlapsForSys)\<close>: the first commitment of the
  list that has a candidate target, with the first of its candidates.
\<close>

fun findTarget :: "int list \<Rightarrow> AllocationDoc list \<Rightarrow> int \<Rightarrow> AllocationDoc list \<Rightarrow> (string \<times> int) option" where
  "findTarget nra allocations sysNum [] = None"
| "findTarget nra allocations sysNum (alloc # rest) =
     (case filter (\<lambda>n. n \<notin> busyForAlloc allocations alloc \<and> n \<noteq> sysNum) nra of
        [] \<Rightarrow> findTarget nra allocations sysNum rest
      | target # _ \<Rightarrow> Some (al_id alloc, target))"

text \<open>\<open>xs.map(n => (n === from ? to : n))\<close>.\<close>

definition swapSystem :: "int \<Rightarrow> int \<Rightarrow> int list \<Rightarrow> int list" where
  "swapSystem src tgt xs = map (\<lambda>n. if n = src then tgt else n) xs"

text \<open>The variables that the outer loop changes.\<close>

record PlanState =
  ps_allocations :: "AllocationDoc list"
  ps_busy :: "int set"
  ps_chosen :: "int list"
  ps_reshuffles :: "Move list"

text \<open>
  The outer loop \<open>for (const sysNum of nonReservedAll)\<close> over the rest of the list.
  \<open>sto\<close> is the index \<open>sysToOverlaps\<close>, built before the loop from the snapshot.
\<close>

fun reshuffleLoop :: "int \<Rightarrow> int list \<Rightarrow> (int \<Rightarrow> AllocationDoc list) \<Rightarrow> int list \<Rightarrow> PlanState \<Rightarrow> PlanState" where
  "reshuffleLoop nd nra sto [] st = st"
| "reshuffleLoop nd nra sto (sysNum # rest) st =
     (if sysNum \<notin> ps_busy st then
        (let st1 = st\<lparr>ps_chosen := ps_chosen st @ [sysNum]\<rparr>
         in if int (length (ps_chosen st1)) \<ge> nd then st1
            else reshuffleLoop nd nra sto rest st1)
      else
        (case findTarget nra (ps_allocations st) sysNum (sto sysNum) of
           None \<Rightarrow> reshuffleLoop nd nra sto rest st
         | Some (aid, target) \<Rightarrow>
             (let st1 = st\<lparr>
                    ps_allocations :=
                      map (\<lambda>a. if al_id a = aid
                                then a\<lparr>al_systems := swapSystem sysNum target (al_systems a)\<rparr>
                                else a)
                        (ps_allocations st),
                    ps_busy := ps_busy st - {sysNum},
                    ps_chosen := ps_chosen st @ [sysNum],
                    ps_reshuffles :=
                      ps_reshuffles st @
                        [\<lparr>moveAllocationId = aid, moveFrom = sysNum, moveTo = target\<rparr>]\<rparr>
              in if int (length (ps_chosen st1)) \<ge> nd then st1
                 else reshuffleLoop nd nra sto rest st1)))"

text \<open>The reads of the snapshot, as the source names them.\<close>

definition systemsOf :: "Store \<Rightarrow> SystemDoc list" where
  "systemsOf snap = sort_key systemNumber (systemsColl snap)"

definition allocationsOf :: "Store \<Rightarrow> RequestDoc \<Rightarrow> AllocationDoc list" where
  "allocationsOf snap req = filter (\<lambda>a. al_date a = rq_date req) (allocationsColl snap)"

definition busyOf :: "Store \<Rightarrow> RequestDoc \<Rightarrow> int set" where
  "busyOf snap req =
     busySet (allocationsOf snap req) (toMinutes (rq_inTime req)) (toMinutes (rq_outTime req))"

definition freeOf :: "Store \<Rightarrow> RequestDoc \<Rightarrow> int list" where
  "freeOf snap req = nonReservedFree (systemsOf snap) (busyOf snap req)"

text \<open>The state in which the reshuffle pass ends.\<close>

definition reshufflePass :: "Store \<Rightarrow> RequestDoc \<Rightarrow> PlanState" where
  "reshufflePass snap req =
     reshuffleLoop (need req) (nonReservedAll (systemsOf snap))
       (sysToOverlaps (allocationsOf snap req) (toMinutes (rq_inTime req)) (toMinutes (rq_outTime req)))
       (nonReservedAll (systemsOf snap))
       \<lparr>ps_allocations = allocationsOf snap req, ps_busy = busyOf snap req,
        ps_chosen = [], ps_reshuffles = []\<rparr>"

subsection \<open>The write phase\<close>

fun digitChar :: "nat \<Rightarrow> char" where
  "digitChar n = (''0123456789'' ! (n mod 10))"

text \<open>The decimal text of \<open>Date.now()\<close> inside the template literal.\<close>

fun decimal :: "nat \<Rightarrow> string" where
  "decimal n = (if n < 10 then [digitChar n] else decimal (n div 10) @ [digitChar n])"

declare decimal.simps [simp del]

definition planId :: "RequestDoc \<Rightarrow> nat \<Rightarrow> string" where
  "planId req now = ''alloc_'' @ rq_id req @ ''_'' @ decimal now"

definition newAllocation :: "RequestDoc \<Rightarrow> nat \<Rightarrow> int list \<Rightarrow> AllocationDoc" where
  "newAllocation req now chosen =
     \<lparr>al_id = planId req now, al_requestId = rq_id req, al_loginId = rq_loginId req,
      al_requesterName = rq_requesterName req, al_systems = chosen, al_date = rq_date req,
      al_inTime = rq_inTime req, al_outTime = rq_outTime req, al_createdBy = ''agent''\<rparr>"

text \<open>
  The loop of the transaction over the moves. Each turn first reads the commitment
  of the move (\<open>tx.get\<close>); a move whose commitment is missing is skipped, otherwise
  the systems of the stored commitment are rewritten (\<open>tx.update\<close>). The store
  demands all reads of a transaction before its writes: \<open>written\<close> says that a
  write has been issued, and a read after that throws, which rejects the
  transaction (\<open>None\<close>).
\<close>

fun applyReshuffles :: "bool \<Rightarrow> Move list \<Rightarrow> AllocationDoc list \<Rightarrow> AllocationDoc list option" where
  "applyReshuffles written [] docs = Some docs"
| "applyReshuffles written (r # rs) docs =
     (if written then None
      else (case getAllocation docs (moveAllocationId r) of
              None \<Rightarrow> applyReshuffles written rs docs
            | Some dat \<Rightarrow>
                applyReshuffles True rs
                  (updateSystems (moveAllocationId r)
                     (swapSystem (moveFrom r) (moveTo r) (al_systems dat)) docs)))"

text \<open>
  The transaction of either success path (the direct path has no moves): the moves,
  the new commitment, the request accepted. \<open>None\<close> is the rejected transaction:
  the loop over the moves threw, or the document of the request is missing.
\<close>

definition runTransaction :: "RequestDoc \<Rightarrow> nat \<Rightarrow> int list \<Rightarrow> Move list \<Rightarrow> Store \<Rightarrow> Store option" where
  "runTransaction req now chosen reshuffles live =
     (case applyReshuffles False reshuffles (allocationsColl live) of
        None \<Rightarrow> None
      | Some docs \<Rightarrow>
          if getRequest (requests live) (rq_id req) = None then None
          else Some (live\<lparr>
            allocationsColl := setAllocation (newAllocation req now chosen) docs,
            requests := updateRequestStatus (rq_id req) Accepted (requests live)\<rparr>))"

text \<open>\<open>rqRef.update({status: "rejected"})\<close>.\<close>

definition rejectRequest :: "string \<Rightarrow> Store \<Rightarrow> Store option" where
  "rejectRequest requestId live =
     (if getRequest (requests live) requestId = None then None
      else Some (live\<lparr>requests := updateRequestStatus requestId Rejected (requests live)\<rparr>))"

subsection \<open>The engine\<close>

definition agentAllocateSingle :: "string \<Rightarrow> nat \<Rightarrow> Store \<Rightarrow> Store \<Rightarrow> Outcome \<times> Store" where
  "agentAllocateSingle requestId now snap live =
     (case getRequest (requests snap) requestId of
        None \<Rightarrow> (Failed request_not_found, live)
      | Some req \<Rightarrow>
          if rq_status req \<noteq> Pending then (Failed not_pending, live)
          else if int (length (freeOf snap req)) \<ge> need req then
            (let chosen = take (nat (need req)) (freeOf snap req)
             in case runTransaction req now chosen [] live of
                  None \<Rightarrow> (Threw, live)
                | Some live' \<Rightarrow> (Ok direct chosen [], live'))
          else
            (let st = reshufflePass snap req
             in if int (length (ps_chosen st)) \<ge> need req then
                  (case runTransaction req now (take (nat (need req)) (ps_chosen st))
                          (ps_reshuffles st) live of
                     None \<Rightarrow> (Threw, live)
                   | Some live' \<Rightarrow>
                       (Ok minimal_reshuffle (take (nat (need req)) (ps_chosen st))
                          (ps_reshuffles st), live'))
                else
                  (case rejectRequest requestId live of
                     None \<Rightarrow> (Threw, live)
                   | Some live' \<Rightarrow> (Failed no_feasible_plan, live'))))"

subsection \<open>The invariant of the ledger\<close>

text \<open>
  Two commitments conflict when they share a date, their windows overlap and they
  share a system. A ledger is free of conflicts when no two of its commitments
  (at different places of the list) conflict.
\<close>

definition conflicting :: "AllocationDoc \<Rightarrow> AllocationDoc \<Rightarrow> bool" where
  "conflicting a b =
     (al_date a = al_date b \<and>
      overlapsAlloc (toMinutes (al_inTime a)) (toMinutes (al_outTime a)) b \<and>
      set (al_systems a) \<inter> set (al_systems b) \<noteq> {})"

fun conflictFree :: "AllocationDoc list \<Rightarrow> bool" where
  "conflictFree [] = True"
| "conflictFree (a # rest) = (list_all (\<lambda>b. \<not> conflicting a b) rest \<and> conflictFree rest)"

subsection \<open>A small laboratory for concrete runs\<close>

definition labSystem :: "int \<Rightarrow> SystemType \<Rightarrow> SystemStatus \<Rightarrow> SystemDoc" where
  "labSystem n ty st = \<lparr>sys_id = ''system_'' @ decimal (nat n), systemNumber = n, sys_type = ty, sys_status = st\<rparr>"

text \<open>Four i7 systems: 3 and 4 are the reserved top two, 1 and 2 can be allocated.\<close>

definition labPool :: "SystemDoc list" where
  "labPool = [labSystem 1 I7 Available, labSystem 2 I7 Available,
              labSystem 3 I7 Available, labSystem 4 I7 Available]"

text \<open>The same pool with system 2 under maintenance.\<close>

definition labPoolMaint :: "SystemDoc list" where
  "labPoolMaint = [labSystem 1 I7 Available, labSystem 2 I7 Maintenance,
                   labSystem 3 I7 Available, labSystem 4 I7 Available]"

text \<open>A pending request \<open>r1\<close> for \<open>n\<close> systems from 09:00 to 10:00.\<close>

definition labRequest :: "int option \<Rightarrow> RequestDoc" where
  "labRequest n =
     \<lparr>rq_id = ''r1'', rq_loginId = ''u1'', rq_requesterName = ''Ann'', rq_date = ''2025-01-10'',
      rq_inTime = ''09:00'', rq_outTime = ''10:00'', rq_numSystems = n, rq_status = Pending\<rparr>"

text \<open>A commitment \<open>k\<close> of an earlier request on the same date from 09:30 to 10:30.\<close>

definition labBooking :: "string \<Rightarrow> int list \<Rightarrow> AllocationDoc" where
  "labBooking k sys =
     \<lparr>al_id = k, al_requestId = ''r0'', al_loginId = ''u0'', al_requesterName = ''Bob'',
      al_systems = sys, al_date = ''2025-01-10'', al_inTime = ''09:30'', al_outTime = ''10:30'',
      al_createdBy = ''agent''\<rparr>"

text \<open>Six i7 systems: 5 and 6 are the reserved top two, 1 to 4 can be allocated.\<close>

definition labPoolSix :: "SystemDoc list" where
  "labPoolSix = [labSystem 1 I7 Available, labSystem 2 I7 Available, labSystem 3 I7 Available,
                 labSystem 4 I7 Available, labSystem 5 I7 Available, labSystem 6 I7 Available]"

definition labStore :: "int option \<Rightarrow> SystemDoc list \<Rightarrow> AllocationDoc list \<Rightarrow> Store" where
  "labStore n pool ledger = \<lparr>requests = [labRequest n], systemsColl = pool, allocationsColl = ledger\<rparr>"

subsection \<open>Rewriting the stored statuses of the pool\<close>

text \<open>The system \<open>sys\<close> with the stored status \<open>f sys\<close>, and a store whose pool is rewritten so.\<close>

definition retag :: "(SystemDoc \<Rightarrow> SystemStatus) \<Rightarrow> SystemDoc \<Rightarrow> SystemDoc" where
  "retag f sys = sys\<lparr>sys_status := f sys\<rparr>"

definition retagStore :: "(SystemDoc \<Rightarrow> SystemStatus) \<Rightarrow> Store \<Rightarrow> Store" where
  "retagStore f snap = snap\<lparr>systemsColl := map (retag f) (systemsColl snap)\<rparr>"

subsection \<open>Rewriting the demand of a request\<close>

text \<open>The store in which the request \<open>k\<close> has the stored demand \<open>d\<close>.\<close>

definition withDemand :: "string \<Rightarrow> int option \<Rightarrow> Store \<Rightarrow> Store" where
  "withDemand k d snap =
     snap\<lparr>requests := map (\<lambda>r. if rq_id r = k then r\<lparr>rq_numSystems := d\<rparr> else r) (requests snap)\<rparr>"

section \<open>Properties of the engine\<close>

subsection \<open>The store's operations\<close>

lemma getRequest_Some_id: "getRequest docs k = Some r \<Longrightarrow> rq_id r = k"
  by (induction docs) (auto simp: getRequest_def split: if_splits)

lemma getRequest_update_same:
  "getRequest docs k = Some r \<Longrightarrow>
   getRequest (updateRequestStatus k st docs) k = Some (r\<lparr>rq_status := st\<rparr>)"
  by (induction docs) (auto simp: getRequest_def updateRequestStatus_def split: if_splits)

lemma getRequest_update_other:
  "k' \<noteq> k \<Longrightarrow> getRequest (updateRequestStatus k st docs) k' = getRequest docs k'"
  by (induction docs) (auto simp: getRequest_def updateRequestStatus_def split: if_splits)

lemma runTransaction_direct:
  "getRequest (requests live) (rq_id req) = Some r \<Longrightarrow>
   runTransaction req now chosen [] live =
     Some (live\<lparr>allocationsColl := setAllocation (newAllocation req now chosen) (allocationsColl live),
                 requests := updateRequestStatus (rq_id req) Accepted (requests live)\<rparr>)"
  by (simp add: runTransaction_def)

lemma runTransaction_SomeD:
  assumes "runTransaction req now chosen moves live = Some live'"
  shows "\<exists>r docs. getRequest (requests live) (rq_id req) = Some r \<and>
           applyReshuffles False moves (allocationsColl live) = Some docs \<and>
           live' = live\<lparr>allocationsColl := setAllocation (newAllocation req now chosen) docs,
                        requests := updateRequestStatus (rq_id req) Accepted (requests live)\<rparr>"
  using assms by (auto simp: runTransaction_def split: option.splits if_splits)

lemma rejectRequest_Some:
  "getRequest (requests live) k = Some r \<Longrightarrow>
   rejectRequest k live = Some (live\<lparr>requests := updateRequestStatus k Rejected (requests live)\<rparr>)"
  by (simp add: rejectRequest_def)

text \<open>After an attempt that ran alone and did not throw, the request is no longer pending.\<close>

lemma attempt_leaves_not_pending:
  assumes run: "agentAllocateSingle requestId now db db = (out, db')"
    and fin: "out = Failed no_feasible_plan \<or> (\<exists>m c r. out = Ok m c r)"
  shows "\<exists>r. getRequest (requests db') requestId = Some r \<and> rq_status r \<noteq> Pending"
proof (cases "getRequest (requests db) requestId")
  case None
  with run fin show ?thesis by (auto simp: agentAllocateSingle_def)
next
  case (Some req)
  then have id: "rq_id req = requestId" by (rule getRequest_Some_id)
  show ?thesis
  proof (cases out)
    case (Ok m c ms)
    with run Some obtain c' ms' where "runTransaction req now c' ms' db = Some db'"
      by (auto simp: agentAllocateSingle_def Let_def split: if_splits option.splits)
    then have "requests db' = updateRequestStatus requestId Accepted (requests db)"
      using runTransaction_SomeD id by fastforce
    then show ?thesis
      using Some by (simp add: getRequest_update_same)
  next
    case (Failed reason)
    with fin have "out = Failed no_feasible_plan" by simp
    with run Some have "rejectRequest requestId db = Some db'"
      by (auto simp: agentAllocateSingle_def Let_def split: if_splits option.splits)
    then have "requests db' = updateRequestStatus requestId Rejected (requests db)"
      using rejectRequest_Some[OF Some] by auto
    then show ?thesis
      using Some by (simp add: getRequest_update_same)
  next
    case Threw
    with fin show ?thesis by simp
  qed
qed

subsection \<open>The outcome of a call\<close>

lemma applyReshuffles_written:
  "applyReshuffles True ms docs = (if ms = [] then Some docs else None)"
  by (cases ms) simp_all

lemma fst_case_option:
  "fst (case x of None \<Rightarrow> (a, l) | Some l' \<Rightarrow> (b, l')) = (if x = None then a else b)"
  by (cases x) simp_all

text \<open>The outcome of a call, by the phase of the planning that decides it.\<close>

lemma outcome_cases:
  assumes "getRequest (requests snap) requestId = Some req"
  shows "fst (agentAllocateSingle requestId now snap live) =
     (if rq_status req \<noteq> Pending then Failed not_pending
      else if need req \<le> int (length (freeOf snap req)) then
        (if runTransaction req now (take (nat (need req)) (freeOf snap req)) [] live = None then Threw
         else Ok direct (take (nat (need req)) (freeOf snap req)) [])
      else if need req \<le> int (length (ps_chosen (reshufflePass snap req))) then
        (if runTransaction req now (take (nat (need req)) (ps_chosen (reshufflePass snap req)))
              (ps_reshuffles (reshufflePass snap req)) live = None then Threw
         else Ok minimal_reshuffle (take (nat (need req)) (ps_chosen (reshufflePass snap req)))
                (ps_reshuffles (reshufflePass snap req)))
      else if rejectRequest requestId live = None then Threw
      else Failed no_feasible_plan)"
  using assms by (simp add: agentAllocateSingle_def Let_def fst_case_option)

lemma success_run:
  assumes "getRequest (requests snap) requestId = Some req"
    and "agentAllocateSingle requestId now snap live = (Ok m chosen moves, live')"
  shows "runTransaction req now chosen moves live = Some live'"
  using assms
  by (auto simp: agentAllocateSingle_def Let_def split: if_splits option.splits)

lemma direct_outcome:
  assumes "getRequest (requests snap) requestId = Some req"
    and "rq_status req = Pending"
    and "need req \<le> int (length (freeOf snap req))"
    and "getRequest (requests live) requestId \<noteq> None"
  shows "fst (agentAllocateSingle requestId now snap live) =
           Ok direct (take (nat (need req)) (freeOf snap req)) []"
proof -
  have id: "rq_id req = requestId"
    using assms(1) by (rule getRequest_Some_id)
  from assms(4) obtain r where "getRequest (requests live) (rq_id req) = Some r"
    using id by auto
  then have "runTransaction req now (take (nat (need req)) (freeOf snap req)) [] live \<noteq> None"
    by (simp add: runTransaction_direct)
  with assms(2,3) show ?thesis
    by (simp add: outcome_cases[OF assms(1)])
qed


subsection \<open>The guards on the request\<close>

text \<open>
  Claim C7. A request identifier that resolves to no stored request yields the
  failure \<open>request_not_found\<close>, and a request that is stored but not pending yields
  the failure \<open>not_pending\<close>; in both cases the store is returned as it was. Hence
  a second call after an attempt that accepted or rejected the request yields
  \<open>not_pending\<close> and writes nothing.
\<close>

theorem guards_report_without_writing:
  "(getRequest (requests snap) requestId = None \<longrightarrow>
      agentAllocateSingle requestId now snap live = (Failed request_not_found, live)) \<and>
   (\<forall>req. getRequest (requests snap) requestId = Some req \<and> rq_status req \<noteq> Pending \<longrightarrow>
      agentAllocateSingle requestId now snap live = (Failed not_pending, live)) \<and>
   (\<forall>out db'. agentAllocateSingle requestId now db db = (out, db') \<and>
        (out = Failed no_feasible_plan \<or> (\<exists>m c r. out = Ok m c r)) \<longrightarrow>
      agentAllocateSingle requestId later db' db' = (Failed not_pending, db'))"
proof (intro conjI allI impI)
  assume "getRequest (requests snap) requestId = None"
  then show "agentAllocateSingle requestId now snap live = (Failed request_not_found, live)"
    by (simp add: agentAllocateSingle_def)
next
  fix req
  assume "getRequest (requests snap) requestId = Some req \<and> rq_status req \<noteq> Pending"
  then show "agentAllocateSingle requestId now snap live = (Failed not_pending, live)"
    by (simp add: agentAllocateSingle_def)
next
  fix out db'
  assume "agentAllocateSingle requestId now db db = (out, db') \<and>
        (out = Failed no_feasible_plan \<or> (\<exists>m c r. out = Ok m c r))"
  then obtain r where "getRequest (requests db') requestId = Some r" "rq_status r \<noteq> Pending"
    using attempt_leaves_not_pending by blast
  then show "agentAllocateSingle requestId later db' db' = (Failed not_pending, db')"
    by (simp add: agentAllocateSingle_def)
qed


theorem guards_report_without_writing_witness:
  "agentAllocateSingle ''zz'' 42 (labStore (Some 1) labPool []) (labStore None labPool []) =
     (Failed request_not_found, labStore None labPool []) \<and>
   agentAllocateSingle ''r1'' 43
     (snd (agentAllocateSingle ''r1'' 42 (labStore (Some 1) labPool []) (labStore (Some 1) labPool [])))
     (snd (agentAllocateSingle ''r1'' 42 (labStore (Some 1) labPool []) (labStore (Some 1) labPool []))) =
     (Failed not_pending,
      snd (agentAllocateSingle ''r1'' 42 (labStore (Some 1) labPool []) (labStore (Some 1) labPool []))) \<and>
   agentAllocateSingle ''r1'' 43
     (snd (agentAllocateSingle ''r1'' 42 (labStore (Some 1) labPool []) (labStore (Some 1) labPool [])))
     (labStore (Some 1) labPool []) =
     (Failed not_pending, labStore (Some 1) labPool [])"
proof -
  let ?S = "labStore (Some 1) labPool []"
  let ?S' = "snd (agentAllocateSingle ''r1'' 42 ?S ?S)"
  have h1: "getRequest (requests ?S) ''zz'' = None"
    by code_simp
  have h2: "fst (agentAllocateSingle ''r1'' 42 ?S ?S) = Ok direct [1] []"
    by code_simp
  have h3: "agentAllocateSingle ''r1'' 42 ?S ?S = (Ok direct [1] [], ?S')"
    using h2 by (simp add: prod_eq_iff)
  have c1: "agentAllocateSingle ''zz'' 42 ?S (labStore None labPool []) =
     (Failed request_not_found, labStore None labPool [])"
    using guards_report_without_writing
      [where snap = ?S and requestId = "''zz''" and now = 42 and live = "labStore None labPool []"]
      h1 by blast
  have c2: "agentAllocateSingle ''r1'' 43 ?S' ?S' = (Failed not_pending, ?S')"
    using guards_report_without_writing
      [where db = ?S and requestId = "''r1''" and now = 42 and later = 43] h3 by blast
  have h4: "getRequest (requests ?S') ''r1'' = Some ((labRequest (Some 1))\<lparr>rq_status := Accepted\<rparr>)"
    by code_simp
  have c3: "agentAllocateSingle ''r1'' 43 ?S' ?S = (Failed not_pending, ?S)"
    using guards_report_without_writing
      [where snap = ?S' and requestId = "''r1''" and now = 43 and live = ?S] h4 by auto
  from c1 c2 c3 show ?thesis by blast
qed

subsection \<open>The effective demand\<close>

lemma getRequest_withDemand:
  "getRequest docs k = Some r \<Longrightarrow>
   getRequest (map (\<lambda>r. if rq_id r = k then r\<lparr>rq_numSystems := d\<rparr> else r) docs) k =
     Some (r\<lparr>rq_numSystems := d\<rparr>)"
  by (induction docs) (auto simp: getRequest_def split: if_splits)

text \<open>The stored demand reaches the engine through \<open>need\<close> only.\<close>

lemma demand_through_need:
  assumes r: "getRequest (requests snap) requestId = Some r"
    and nd: "need (r\<lparr>rq_numSystems := d\<rparr>) = need r"
  shows "agentAllocateSingle requestId now (withDemand requestId d snap) live =
         agentAllocateSingle requestId now snap live"
proof -
  let ?r = "r\<lparr>rq_numSystems := d\<rparr>"
  have g: "getRequest (requests (withDemand requestId d snap)) requestId = Some ?r"
    using getRequest_withDemand[OF r] by (simp add: withDemand_def)
  have f: "freeOf (withDemand requestId d snap) ?r = freeOf snap r"
    by (simp add: freeOf_def systemsOf_def busyOf_def allocationsOf_def withDemand_def)
  have p: "reshufflePass (withDemand requestId d snap) ?r = reshufflePass snap r"
    by (simp add: reshufflePass_def systemsOf_def busyOf_def allocationsOf_def withDemand_def nd)
  have na: "\<And>c. newAllocation ?r now c = newAllocation r now c"
    by (simp add: newAllocation_def planId_def)
  have t: "\<And>c ms. runTransaction ?r now c ms live = runTransaction r now c ms live"
    by (auto simp: runTransaction_def na split: option.split)
  have s: "rq_status ?r = rq_status r"
    by simp
  show ?thesis
    unfolding agentAllocateSingle_def g r option.case f p t nd s ..
qed

text \<open>
  Claim C9. The demand the engine works with is \<open>max(1, numSystems)\<close>: a missing,
  zero or negative \<open>numSystems\<close> is a demand of exactly one system. Such a request
  is served as a request for one system: the call does exactly what it does when
  the stored demand is 1, and when a system is directly free for a pending request
  it succeeds in mode \<open>direct\<close> with the first free system. Every successful
  outcome returns exactly \<open>need\<close> systems.
\<close>

theorem effective_demand:
  "need req = (case rq_numSystems req of None \<Rightarrow> 1 | Some n \<Rightarrow> max 1 n) \<and>
   (rq_numSystems req = None \<longrightarrow> need req = 1) \<and>
   (\<forall>n. rq_numSystems req = Some n \<and> n \<le> 0 \<longrightarrow> need req = 1) \<and>
   (\<forall>r m chosen moves live'.
      getRequest (requests snap) requestId = Some r \<and>
      agentAllocateSingle requestId now snap live = (Ok m chosen moves, live') \<longrightarrow>
      int (length chosen) = need r) \<and>
   (\<forall>r. getRequest (requests snap) requestId = Some r \<and>
      (rq_numSystems r = None \<or> (\<exists>n. rq_numSystems r = Some n \<and> n \<le> 0)) \<longrightarrow>
      agentAllocateSingle requestId now snap live =
      agentAllocateSingle requestId now (withDemand requestId (Some 1) snap) live) \<and>
   (\<forall>r. getRequest (requests snap) requestId = Some r \<and> rq_status r = Pending \<and>
      (rq_numSystems r = None \<or> (\<exists>n. rq_numSystems r = Some n \<and> n \<le> 0)) \<and>
      freeOf snap r \<noteq> [] \<and> getRequest (requests live) requestId \<noteq> None \<longrightarrow>
      fst (agentAllocateSingle requestId now snap live) = Ok direct (take 1 (freeOf snap r)) [])"
proof (intro conjI allI impI)
  show "need req = (case rq_numSystems req of None \<Rightarrow> 1 | Some n \<Rightarrow> max 1 n)"
    by (simp add: need_def split: option.split)
next
  assume "rq_numSystems req = None"
  then show "need req = 1" by (simp add: need_def)
next
  fix n assume "rq_numSystems req = Some n \<and> n \<le> 0"
  then show "need req = 1" by (simp add: need_def)
next
  fix r m chosen moves live'
  assume a: "getRequest (requests snap) requestId = Some r \<and>
      agentAllocateSingle requestId now snap live = (Ok m chosen moves, live')"
  have pos: "1 \<le> need r" by (simp add: need_def)
  from a pos show "int (length chosen) = need r"
    by (auto simp: agentAllocateSingle_def Let_def split: if_splits option.splits)
next
  fix r
  assume a: "getRequest (requests snap) requestId = Some r \<and>
      (rq_numSystems r = None \<or> (\<exists>n. rq_numSystems r = Some n \<and> n \<le> 0))"
  then have "need r = 1" by (auto simp: need_def)
  then have "need (r\<lparr>rq_numSystems := Some 1\<rparr>) = need r" by (simp add: need_def)
  with a show "agentAllocateSingle requestId now snap live =
      agentAllocateSingle requestId now (withDemand requestId (Some 1) snap) live"
    using demand_through_need[of snap requestId r "Some 1" now live] by simp
next
  fix r
  assume a: "getRequest (requests snap) requestId = Some r \<and> rq_status r = Pending \<and>
      (rq_numSystems r = None \<or> (\<exists>n. rq_numSystems r = Some n \<and> n \<le> 0)) \<and>
      freeOf snap r \<noteq> [] \<and> getRequest (requests live) requestId \<noteq> None"
  then have one: "need r = 1" by (auto simp: need_def)
  from a have "1 \<le> length (freeOf snap r)" by (cases "freeOf snap r") simp_all
  then have "need r \<le> int (length (freeOf snap r))" using one by simp
  with a have "fst (agentAllocateSingle requestId now snap live) =
           Ok direct (take (nat (need r)) (freeOf snap r)) []"
    using direct_outcome by blast
  then show "fst (agentAllocateSingle requestId now snap live) = Ok direct (take 1 (freeOf snap r)) []"
    using one by simp
qed

theorem effective_demand_witness:
  "need (labRequest None) = 1 \<and> need (labRequest (Some (- 3))) = 1 \<and>
   need (labRequest (Some 0)) = 1 \<and> int (length [1::int]) = need (labRequest (Some 0)) \<and>
   fst (agentAllocateSingle ''r1'' 42 (labStore None labPool []) (labStore None labPool [])) =
     Ok direct [1] [] \<and>
   fst (agentAllocateSingle ''r1'' 42 (labStore (Some 0) labPool []) (labStore (Some 0) labPool [])) =
     Ok direct [1] [] \<and>
   fst (agentAllocateSingle ''r1'' 42 (labStore (Some (- 3)) labPool [labBooking ''a1'' [1]])
          (labStore (Some (- 3)) labPool [labBooking ''a1'' [1]])) = Ok direct [2] [] \<and>
   agentAllocateSingle ''r1'' 42 (labStore (Some (- 3)) labPool [labBooking ''a1'' [1]])
       (labStore (Some (- 3)) labPool [labBooking ''a1'' [1]]) =
   agentAllocateSingle ''r1'' 42
       (withDemand ''r1'' (Some 1) (labStore (Some (- 3)) labPool [labBooking ''a1'' [1]]))
       (labStore (Some (- 3)) labPool [labBooking ''a1'' [1]])"
proof -
  let ?S = "labStore (Some 0) labPool []"
  let ?N = "labStore None labPool []"
  let ?M = "labStore (Some (- 3)) labPool [labBooking ''a1'' [1]]"
  let ?S' = "snd (agentAllocateSingle ''r1'' 42 ?S ?S)"
  have h0: "rq_numSystems (labRequest None) = None"
    by (simp add: labRequest_def)
  have h1: "rq_numSystems (labRequest (Some (- 3))) = Some (- 3) \<and> (- 3::int) \<le> 0"
    by (simp add: labRequest_def)
  have h2: "rq_numSystems (labRequest (Some 0)) = Some 0 \<and> (0::int) \<le> 0"
    by (simp add: labRequest_def)
  have h3: "getRequest (requests ?S) ''r1'' = Some (labRequest (Some 0))"
    by code_simp
  have h4: "fst (agentAllocateSingle ''r1'' 42 ?S ?S) = Ok direct [1] []"
    by code_simp
  have h5: "agentAllocateSingle ''r1'' 42 ?S ?S = (Ok direct [1] [], ?S')"
    using h4 by (simp add: prod_eq_iff)
  have c0: "need (labRequest None) = 1"
    using effective_demand [where req = "labRequest None"] h0 by blast
  have c1: "need (labRequest (Some (- 3))) = 1"
    using effective_demand [where req = "labRequest (Some (- 3))"] h1 by blast
  have c2: "need (labRequest (Some 0)) = 1"
    using effective_demand [where req = "labRequest (Some 0)"] h2 by blast
  have c3: "int (length [1::int]) = need (labRequest (Some 0))"
    using effective_demand [where snap = ?S and requestId = "''r1''" and now = 42 and live = ?S]
      h3 h5 by blast
  have n1: "getRequest (requests ?N) ''r1'' = Some (labRequest None)" by code_simp
  have n2: "rq_status (labRequest None) = Pending" by code_simp
  have n3: "freeOf ?N (labRequest None) \<noteq> []" by code_simp
  have n4: "getRequest (requests ?N) ''r1'' \<noteq> None" using n1 by simp
  have n5: "take 1 (freeOf ?N (labRequest None)) = [1]" by code_simp
  have "fst (agentAllocateSingle ''r1'' 42 ?N ?N) = Ok direct (take 1 (freeOf ?N (labRequest None))) []"
    using effective_demand [where snap = ?N and requestId = "''r1''" and now = 42 and live = ?N]
      n1 n2 n3 n4 h0 by blast
  then have c4: "fst (agentAllocateSingle ''r1'' 42 ?N ?N) = Ok direct [1] []"
    using n5 by simp
  have z2: "rq_status (labRequest (Some 0)) = Pending" by code_simp
  have z3: "freeOf ?S (labRequest (Some 0)) \<noteq> []" by code_simp
  have z4: "getRequest (requests ?S) ''r1'' \<noteq> None" using h3 by simp
  have z5: "take 1 (freeOf ?S (labRequest (Some 0))) = [1]" by code_simp
  have "fst (agentAllocateSingle ''r1'' 42 ?S ?S) = Ok direct (take 1 (freeOf ?S (labRequest (Some 0)))) []"
    using effective_demand [where snap = ?S and requestId = "''r1''" and now = 42 and live = ?S]
      h3 z2 z3 z4 h2 by blast
  then have c5: "fst (agentAllocateSingle ''r1'' 42 ?S ?S) = Ok direct [1] []"
    using z5 by simp
  have m1: "getRequest (requests ?M) ''r1'' = Some (labRequest (Some (- 3)))" by code_simp
  have m2: "rq_status (labRequest (Some (- 3))) = Pending" by code_simp
  have m3: "freeOf ?M (labRequest (Some (- 3))) \<noteq> []" by code_simp
  have m4: "getRequest (requests ?M) ''r1'' \<noteq> None" using m1 by simp
  have m5: "take 1 (freeOf ?M (labRequest (Some (- 3)))) = [2]" by code_simp
  have "fst (agentAllocateSingle ''r1'' 42 ?M ?M) =
      Ok direct (take 1 (freeOf ?M (labRequest (Some (- 3))))) []"
    using effective_demand [where snap = ?M and requestId = "''r1''" and now = 42 and live = ?M]
      m1 m2 m3 m4 h1 by blast
  then have c6: "fst (agentAllocateSingle ''r1'' 42 ?M ?M) = Ok direct [2] []"
    using m5 by simp
  have c7: "agentAllocateSingle ''r1'' 42 ?M ?M =
      agentAllocateSingle ''r1'' 42 (withDemand ''r1'' (Some 1) ?M) ?M"
    using effective_demand [where snap = ?M and requestId = "''r1''" and now = 42 and live = ?M]
      m1 h1 by blast
  from c0 c1 c2 c3 c4 c5 c6 c7 show ?thesis by blast
qed

subsection \<open>Runs that break the invariant of the ledger\<close>

text \<open>
  Claim C1. After a successful attempt no two commitments of one date with
  overlapping windows share a system. The run below refutes it for the reshuffle
  path: the ledger holds one commitment \<open>a1\<close> on system 2 (09:30 to 10:30), the
  request asks for two systems from 09:00 to 10:00. System 1 is free and is chosen;
  system 2 is busy, and \<open>a1\<close> is moved to the first system that is free for the
  window of \<open>a1\<close>, which is system 1. The new commitment holds 1 and 2, the moved
  commitment holds 1, and their windows overlap.
\<close>

theorem reshuffle_target_collides_with_chosen:
  "conflictFree (allocationsColl (labStore (Some 2) labPool [labBooking ''a1'' [2]])) \<and>
   fst (agentAllocateSingle ''r1'' 42 (labStore (Some 2) labPool [labBooking ''a1'' [2]])
          (labStore (Some 2) labPool [labBooking ''a1'' [2]])) =
     Ok minimal_reshuffle [1, 2] [\<lparr>moveAllocationId = ''a1'', moveFrom = 2, moveTo = 1\<rparr>] \<and>
   allocationsColl (snd (agentAllocateSingle ''r1'' 42 (labStore (Some 2) labPool [labBooking ''a1'' [2]])
          (labStore (Some 2) labPool [labBooking ''a1'' [2]]))) =
     [labBooking ''a1'' [1], newAllocation (labRequest (Some 2)) 42 [1, 2]] \<and>
   conflicting (labBooking ''a1'' [1]) (newAllocation (labRequest (Some 2)) 42 [1, 2]) \<and>
   \<not> conflictFree (allocationsColl (snd (agentAllocateSingle ''r1'' 42
          (labStore (Some 2) labPool [labBooking ''a1'' [2]])
          (labStore (Some 2) labPool [labBooking ''a1'' [2]]))))"
  by code_simp

subsection \<open>Runs that use a system under maintenance\<close>

text \<open>
  Claim C2. No chosen system and no target of a move has the stored status
  \<open>maintenance\<close>. The two runs below refute it for the reshuffle path, whose
  candidate list \<open>nonReservedAll\<close> is not filtered by status. In the first run
  system 2 is under maintenance and not busy: the direct path finds one free system
  for a demand of two, and the reshuffle pass chooses 1 and 2. In the second run
  system 1 is busy and its commitment is moved to system 2, which is under
  maintenance.
\<close>

theorem reshuffle_uses_maintenance:
  "map sys_status (filter (\<lambda>sys. systemNumber sys = 2) labPoolMaint) = [Maintenance] \<and>
   fst (agentAllocateSingle ''r1'' 42 (labStore (Some 2) labPoolMaint [])
          (labStore (Some 2) labPoolMaint [])) =
     Ok minimal_reshuffle [1, 2] [] \<and>
   fst (agentAllocateSingle ''r1'' 42 (labStore (Some 1) labPoolMaint [labBooking ''a1'' [1]])
          (labStore (Some 1) labPoolMaint [labBooking ''a1'' [1]])) =
     Ok minimal_reshuffle [1] [\<lparr>moveAllocationId = ''a1'', moveFrom = 1, moveTo = 2\<rparr>]"
  by code_simp

subsection \<open>The directly free list\<close>

lemma set_systemsOf: "set (systemsOf snap) = set (systemsColl snap)"
  by (simp add: systemsOf_def)

lemma sorted_systemsOf: "sorted (map systemNumber (systemsOf snap))"
  by (simp add: systemsOf_def)

lemma sorted_freeOf: "sorted (freeOf snap req)"
  unfolding freeOf_def nonReservedFree_def
  by (rule sorted_filter) (rule sorted_systemsOf)

lemma set_freeOf:
  "n \<in> set (freeOf snap req) \<longleftrightarrow>
     (\<exists>sys \<in> set (systemsColl snap). systemNumber sys = n \<and> \<not> isRes (systemsOf snap) sys \<and>
        n \<notin> busyOf snap req \<and> sys_status sys \<noteq> Maintenance)"
  by (auto simp: freeOf_def nonReservedFree_def set_systemsOf)

lemma set_busyOf:
  "n \<in> busyOf snap req \<longleftrightarrow>
     (\<exists>a \<in> set (allocationsColl snap). al_date a = rq_date req \<and>
        overlapsAlloc (toMinutes (rq_inTime req)) (toMinutes (rq_outTime req)) a \<and>
        n \<in> set (al_systems a))"
  by (auto simp: busyOf_def busySet_def allocationsOf_def)

subsection \<open>The direct path\<close>

text \<open>
  Claim C4. When the directly free list (the systems that are not reserved, not
  under maintenance and not busy, in ascending order of their numbers) is at least
  as long as the demand, the engine returns success in mode \<open>direct\<close>, the chosen
  systems are the first \<open>need\<close> entries of that list, and the list of moves is
  empty. The pending request is the one read from the snapshot; its document must
  still exist when the transaction runs, as it does when the attempt runs alone.
\<close>

theorem direct_allocation:
  assumes "getRequest (requests snap) requestId = Some req"
    and "rq_status req = Pending"
    and "need req \<le> int (length (freeOf snap req))"
    and "getRequest (requests live) requestId \<noteq> None"
  shows "fst (agentAllocateSingle requestId now snap live) =
           Ok direct (take (nat (need req)) (freeOf snap req)) [] \<and>
         sorted (freeOf snap req) \<and>
         set (freeOf snap req) =
           {n. \<exists>sys \<in> set (systemsColl snap). systemNumber sys = n \<and>
                 \<not> isRes (systemsOf snap) sys \<and> n \<notin> busyOf snap req \<and>
                 sys_status sys \<noteq> Maintenance}"
proof -
  have id: "rq_id req = requestId"
    using assms(1) by (rule getRequest_Some_id)
  from assms(4) obtain r where "getRequest (requests live) (rq_id req) = Some r"
    using id by auto
  then have "runTransaction req now (take (nat (need req)) (freeOf snap req)) [] live \<noteq> None"
    by (simp add: runTransaction_direct)
  then have "fst (agentAllocateSingle requestId now snap live) =
           Ok direct (take (nat (need req)) (freeOf snap req)) []"
    using assms(1,2,3) by (auto simp: agentAllocateSingle_def Let_def)
  moreover have "set (freeOf snap req) =
           {n. \<exists>sys \<in> set (systemsColl snap). systemNumber sys = n \<and>
                 \<not> isRes (systemsOf snap) sys \<and> n \<notin> busyOf snap req \<and>
                 sys_status sys \<noteq> Maintenance}"
    using set_freeOf by blast
  ultimately show ?thesis using sorted_freeOf by blast
qed

theorem direct_allocation_witness:
  "fst (agentAllocateSingle ''r1'' 42 (labStore (Some 1) labPool [labBooking ''a1'' [1]])
          (labStore (Some 1) labPool [labBooking ''a1'' [1]])) = Ok direct [2] []"
proof -
  let ?S = "labStore (Some 1) labPool [labBooking ''a1'' [1]]"
  let ?r = "labRequest (Some 1)"
  have h1: "getRequest (requests ?S) ''r1'' = Some ?r" by code_simp
  have h2: "rq_status ?r = Pending" by code_simp
  have h3: "need ?r \<le> int (length (freeOf ?S ?r))" by code_simp
  have h4: "getRequest (requests ?S) ''r1'' \<noteq> None" using h1 by simp
  have e: "take (nat (need ?r)) (freeOf ?S ?r) = [2]" by code_simp
  from direct_allocation [OF h1 h2 h3 h4, of 42] e show ?thesis by simp
qed

text \<open>
  The direct path keeps what the reshuffle path breaks: its systems come from the
  directly free list, so the new commitment conflicts with no commitment of the
  snapshot and none of its systems is under maintenance.
\<close>

lemma direct_chosen_free:
  assumes "getRequest (requests snap) requestId = Some req"
    and "agentAllocateSingle requestId now snap live = (Ok direct chosen moves, live')"
  shows "set chosen \<subseteq> set (freeOf snap req) \<and> moves = []"
  using assms set_take_subset[of "nat (need req)" "freeOf snap req"]
  by (auto simp: agentAllocateSingle_def Let_def split: if_splits option.splits)

lemma direct_commitment_conflicts_with_none:
  assumes "getRequest (requests snap) requestId = Some req"
    and "agentAllocateSingle requestId now snap live = (Ok direct chosen moves, live')"
    and "a \<in> set (allocationsColl snap)"
  shows "\<not> conflicting (newAllocation req now chosen) a"
proof
  assume c: "conflicting (newAllocation req now chosen) a"
  then obtain n where n: "n \<in> set chosen" "n \<in> set (al_systems a)"
    by (auto simp: conflicting_def newAllocation_def)
  from c have "al_date a = rq_date req"
    and "overlapsAlloc (toMinutes (rq_inTime req)) (toMinutes (rq_outTime req)) a"
    by (simp_all add: conflicting_def newAllocation_def)
  with assms(3) n(2) have "n \<in> busyOf snap req"
    using set_busyOf by blast
  moreover have "n \<in> set (freeOf snap req)"
    using direct_chosen_free[OF assms(1,2)] n(1) by blast
  ultimately show False
    using set_freeOf by blast
qed

lemma direct_chosen_not_maintenance:
  assumes "getRequest (requests snap) requestId = Some req"
    and "agentAllocateSingle requestId now snap live = (Ok direct chosen moves, live')"
    and "n \<in> set chosen"
  shows "\<exists>sys \<in> set (systemsColl snap). systemNumber sys = n \<and> sys_status sys \<noteq> Maintenance"
proof -
  have "n \<in> set (freeOf snap req)"
    using direct_chosen_free[OF assms(1,2)] assms(3) by blast
  then show ?thesis using set_freeOf by blast
qed

subsection \<open>The stored status of a system\<close>

lemma retag_fields [simp]:
  "systemNumber (retag f sys) = systemNumber sys"
  "sys_type (retag f sys) = sys_type sys"
  "sys_status (retag f sys) = f sys"
  by (simp_all add: retag_def)

lemma insort_key_retag:
  "insort_key systemNumber (retag f x) (map (retag f) ys) = map (retag f) (insort_key systemNumber x ys)"
  by (induction ys) simp_all

lemma sort_key_retag:
  "sort_key systemNumber (map (retag f) xs) = map (retag f) (sort_key systemNumber xs)"
  by (induction xs) (simp_all add: insort_key_retag)

lemma i7Nums_retag: "i7Nums (map (retag f) xs) = i7Nums xs"
  by (simp add: i7Nums_def filter_map o_def)

lemma i9Nums_retag: "i9Nums (map (retag f) xs) = i9Nums xs"
  by (simp add: i9Nums_def filter_map o_def)

lemma isRes_retag: "isRes (map (retag f) xs) (retag f sys) = isRes xs sys"
  by (simp add: isRes_def reservedI7_def reservedI9_def i7Nums_retag i9Nums_retag)

lemma nonReservedAll_retag: "nonReservedAll (map (retag f) xs) = nonReservedAll xs"
  by (simp add: nonReservedAll_def filter_map o_def isRes_retag)

lemma nonReservedFree_retag:
  assumes "\<forall>sys. (f sys = Maintenance) = (sys_status sys = Maintenance)"
  shows "nonReservedFree (map (retag f) xs) busy = nonReservedFree xs busy"
  using assms by (simp add: nonReservedFree_def filter_map o_def isRes_retag)

lemma systemsOf_retag: "systemsOf (retagStore f snap) = map (retag f) (systemsOf snap)"
  by (simp add: systemsOf_def retagStore_def sort_key_retag)

lemma busyOf_retag: "busyOf (retagStore f snap) req = busyOf snap req"
  by (simp add: busyOf_def allocationsOf_def retagStore_def)

lemma reshufflePass_retag: "reshufflePass (retagStore f snap) req = reshufflePass snap req"
  by (simp add: reshufflePass_def systemsOf_retag nonReservedAll_retag busyOf_retag)
     (simp add: allocationsOf_def retagStore_def)

lemma freeOf_retag:
  assumes "\<forall>sys. (f sys = Maintenance) = (sys_status sys = Maintenance)"
  shows "freeOf (retagStore f snap) req = freeOf snap req"
  by (simp add: freeOf_def systemsOf_retag busyOf_retag nonReservedFree_retag[OF assms])

text \<open>
  Claim C10. Outside the reserved carve-out the stored status \<open>occupied\<close>,
  \<open>reserved\<close> or \<open>available\<close> has no effect on the decision. Giving every
  system of the pool a new stored status, system by system, so that exactly the
  systems under maintenance stay under maintenance, leaves the result of the engine
  unchanged; a system number is in the directly free list
  exactly when some system of that number is not in its class's reserved set, is
  not busy and is not under maintenance; and neither the reserved sets nor the busy
  set depend on a stored status.
\<close>

theorem stored_status_without_effect:
  assumes "\<forall>sys. (f sys = Maintenance) = (sys_status sys = Maintenance)"
  shows "agentAllocateSingle requestId now (retagStore f snap) live =
           agentAllocateSingle requestId now snap live \<and>
         (\<forall>req n. n \<in> set (freeOf snap req) \<longleftrightarrow>
            (\<exists>sys \<in> set (systemsColl snap). systemNumber sys = n \<and>
               \<not> isRes (systemsOf snap) sys \<and> n \<notin> busyOf snap req \<and>
               sys_status sys \<noteq> Maintenance)) \<and>
         (\<forall>sys. isRes (systemsOf (retagStore f snap)) (retag f sys) = isRes (systemsOf snap) sys) \<and>
         (\<forall>req. busyOf (retagStore f snap) req = busyOf snap req)"
proof -
  have rq: "requests (retagStore f snap) = requests snap"
    by (simp add: retagStore_def)
  have "agentAllocateSingle requestId now (retagStore f snap) live =
           agentAllocateSingle requestId now snap live"
    unfolding agentAllocateSingle_def rq freeOf_retag[OF assms] reshufflePass_retag ..
  then show ?thesis
    using set_freeOf by (simp add: systemsOf_retag isRes_retag busyOf_retag)
qed

theorem stored_status_without_effect_witness:
  "agentAllocateSingle ''r1'' 42
     (retagStore (\<lambda>sys. if sys_status sys = Maintenance then Maintenance
                        else if systemNumber sys = 1 then Occupied else Reserved)
        (labStore (Some 1) labPoolMaint []))
     (labStore (Some 1) labPoolMaint []) =
   agentAllocateSingle ''r1'' 42 (labStore (Some 1) labPoolMaint []) (labStore (Some 1) labPoolMaint [])"
proof -
  let ?f = "\<lambda>sys. if sys_status sys = Maintenance then Maintenance
                  else if systemNumber sys = 1 then Occupied else Reserved"
  have h: "\<forall>sys. (?f sys = Maintenance) = (sys_status sys = Maintenance)"
    by simp
  from stored_status_without_effect [OF h, of "''r1''" 42 "labStore (Some 1) labPoolMaint []"
      "labStore (Some 1) labPoolMaint []"]
  show ?thesis by blast
qed

subsection \<open>Infeasible requests\<close>

text \<open>
  Claim C6. When neither the direct path nor the reshuffle pass gathers \<open>need\<close>
  systems, the engine returns the failure \<open>no_feasible_plan\<close>, sets the status of
  the request to rejected, and leaves the ledger as it was: no commitment is
  written and no move of the pass reaches a stored commitment. The other requests
  and the pool are unchanged too.
\<close>

theorem infeasible_request_rejected:
  assumes "getRequest (requests snap) requestId = Some req"
    and "rq_status req = Pending"
    and "int (length (freeOf snap req)) < need req"
    and "int (length (ps_chosen (reshufflePass snap req))) < need req"
    and "getRequest (requests live) requestId = Some r"
  shows "fst (agentAllocateSingle requestId now snap live) = Failed no_feasible_plan \<and>
         allocationsColl (snd (agentAllocateSingle requestId now snap live)) = allocationsColl live \<and>
         systemsColl (snd (agentAllocateSingle requestId now snap live)) = systemsColl live \<and>
         getRequest (requests (snd (agentAllocateSingle requestId now snap live))) requestId =
           Some (r\<lparr>rq_status := Rejected\<rparr>) \<and>
         (\<forall>k. k \<noteq> requestId \<longrightarrow>
            getRequest (requests (snd (agentAllocateSingle requestId now snap live))) k =
            getRequest (requests live) k)"
proof -
  have run: "agentAllocateSingle requestId now snap live =
      (Failed no_feasible_plan, live\<lparr>requests := updateRequestStatus requestId Rejected (requests live)\<rparr>)"
    using assms(1-4) rejectRequest_Some[OF assms(5)]
    by (simp add: agentAllocateSingle_def Let_def)
  show ?thesis
    unfolding run using assms(5)
    by (simp add: getRequest_update_same getRequest_update_other)
qed

theorem infeasible_request_rejected_witness:
  "fst (agentAllocateSingle ''r1'' 42
          (labStore (Some 1) labPool [labBooking ''a1'' [1], labBooking ''a2'' [2]])
          (labStore (Some 1) labPool [labBooking ''a1'' [1], labBooking ''a2'' [2]])) =
     Failed no_feasible_plan \<and>
   allocationsColl (snd (agentAllocateSingle ''r1'' 42
          (labStore (Some 1) labPool [labBooking ''a1'' [1], labBooking ''a2'' [2]])
          (labStore (Some 1) labPool [labBooking ''a1'' [1], labBooking ''a2'' [2]]))) =
     [labBooking ''a1'' [1], labBooking ''a2'' [2]] \<and>
   getRequest (requests (snd (agentAllocateSingle ''r1'' 42
          (labStore (Some 1) labPool [labBooking ''a1'' [1], labBooking ''a2'' [2]])
          (labStore (Some 1) labPool [labBooking ''a1'' [1], labBooking ''a2'' [2]])))) ''r1'' =
     Some ((labRequest (Some 1))\<lparr>rq_status := Rejected\<rparr>)"
proof -
  let ?S = "labStore (Some 1) labPool [labBooking ''a1'' [1], labBooking ''a2'' [2]]"
  let ?r = "labRequest (Some 1)"
  have h1: "getRequest (requests ?S) ''r1'' = Some ?r" by code_simp
  have h2: "rq_status ?r = Pending" by code_simp
  have h3: "int (length (freeOf ?S ?r)) < need ?r" by code_simp
  have h4: "int (length (ps_chosen (reshufflePass ?S ?r))) < need ?r" by code_simp
  have e: "allocationsColl ?S = [labBooking ''a1'' [1], labBooking ''a2'' [2]]"
    by (simp add: labStore_def)
  from infeasible_request_rejected [OF h1 h2 h3 h4 h1, of 42] e show ?thesis by simp
qed

subsection \<open>The commit\<close>






text \<open>
  The transaction of the reshuffle path reads inside its loop. With two moves whose
  first commitment is stored, the second turn reads after the first has written:
  the attempt that runs alone throws and leaves the store as it was, while the same
  plan goes through when the first commitment has been deleted in the meantime.
\<close>

lemma second_move_rejects_transaction:
  "ps_reshuffles (reshufflePass (labStore (Some 4) labPoolSix [labBooking ''a1'' [1], labBooking ''a2'' [2]])
      (labRequest (Some 4))) =
     [\<lparr>moveAllocationId = ''a1'', moveFrom = 1, moveTo = 3\<rparr>,
      \<lparr>moveAllocationId = ''a2'', moveFrom = 2, moveTo = 1\<rparr>] \<and>
   agentAllocateSingle ''r1'' 42
       (labStore (Some 4) labPoolSix [labBooking ''a1'' [1], labBooking ''a2'' [2]])
       (labStore (Some 4) labPoolSix [labBooking ''a1'' [1], labBooking ''a2'' [2]]) =
     (Threw, labStore (Some 4) labPoolSix [labBooking ''a1'' [1], labBooking ''a2'' [2]]) \<and>
   fst (agentAllocateSingle ''r1'' 42
       (labStore (Some 4) labPoolSix [labBooking ''a1'' [1], labBooking ''a2'' [2]])
       (labStore (Some 4) labPoolSix [labBooking ''a2'' [2]])) =
     Ok minimal_reshuffle [1, 2, 3, 4]
       [\<lparr>moveAllocationId = ''a1'', moveFrom = 1, moveTo = 3\<rparr>,
        \<lparr>moveAllocationId = ''a2'', moveFrom = 2, moveTo = 1\<rparr>]"
  by code_simp



subsection \<open>The reshuffle pass draws from the systems that are not reserved\<close>

lemma findTarget_Some:
  "findTarget nra allocations sysNum cands = Some (aid, t) \<Longrightarrow>
   t \<in> set nra \<and> t \<noteq> sysNum \<and>
   (\<exists>alloc \<in> set cands. al_id alloc = aid \<and> t \<notin> busyForAlloc allocations alloc)"
proof (induction cands)
  case Nil
  then show ?case by simp
next
  case (Cons alloc rest)
  show ?case
  proof (cases "filter (\<lambda>n. n \<notin> busyForAlloc allocations alloc \<and> n \<noteq> sysNum) nra")
    case Nil
    with Cons show ?thesis by simp
  next
    case (Cons target more)
    then have "target \<in> set (filter (\<lambda>n. n \<notin> busyForAlloc allocations alloc \<and> n \<noteq> sysNum) nra)"
      by simp
    then have "target \<in> set nra \<and> target \<notin> busyForAlloc allocations alloc \<and> target \<noteq> sysNum"
      by simp
    moreover from Cons Cons.prems have "aid = al_id alloc \<and> t = target" by simp
    ultimately show ?thesis by simp
  qed
qed

lemma reshuffleLoop_chosen:
  "set (ps_chosen (reshuffleLoop nd nra sto xs st)) \<subseteq> set (ps_chosen st) \<union> set xs"
proof (induction xs arbitrary: st)
  case Nil
  then show ?case by simp
next
  case (Cons sysNum rest)
  show ?case
  proof (cases "sysNum \<in> ps_busy st")
    case False
    then show ?thesis
      using Cons.IH[of "st\<lparr>ps_chosen := ps_chosen st @ [sysNum]\<rparr>"]
      by (auto simp: Let_def)
  next
    case True
    show ?thesis
    proof (cases "findTarget nra (ps_allocations st) sysNum (sto sysNum)")
      case None
      with True Cons.IH[of st] show ?thesis by auto
    next
      case (Some p)
      obtain aid target where p: "p = (aid, target)" by (cases p)
      let ?st1 = "st\<lparr>ps_allocations :=
                      map (\<lambda>a. if al_id a = aid
                                then a\<lparr>al_systems := swapSystem sysNum target (al_systems a)\<rparr>
                                else a)
                        (ps_allocations st),
                    ps_busy := ps_busy st - {sysNum},
                    ps_chosen := ps_chosen st @ [sysNum],
                    ps_reshuffles :=
                      ps_reshuffles st @
                        [\<lparr>moveAllocationId = aid, moveFrom = sysNum, moveTo = target\<rparr>]\<rparr>"
      from True Some p Cons.IH[of ?st1] show ?thesis
        by (auto simp: Let_def)
    qed
  qed
qed

lemma reshuffleLoop_targets:
  "moveTo ` set (ps_reshuffles (reshuffleLoop nd nra sto xs st)) \<subseteq>
     moveTo ` set (ps_reshuffles st) \<union> set nra"
proof (induction xs arbitrary: st)
  case Nil
  then show ?case by simp
next
  case (Cons sysNum rest)
  show ?case
  proof (cases "sysNum \<in> ps_busy st")
    case False
    then show ?thesis
      using Cons.IH[of "st\<lparr>ps_chosen := ps_chosen st @ [sysNum]\<rparr>"]
      by (auto simp: Let_def)
  next
    case True
    show ?thesis
    proof (cases "findTarget nra (ps_allocations st) sysNum (sto sysNum)")
      case None
      with True Cons.IH[of st] show ?thesis by auto
    next
      case (Some p)
      obtain aid target where p: "p = (aid, target)" by (cases p)
      let ?st1 = "st\<lparr>ps_allocations :=
                      map (\<lambda>a. if al_id a = aid
                                then a\<lparr>al_systems := swapSystem sysNum target (al_systems a)\<rparr>
                                else a)
                        (ps_allocations st),
                    ps_busy := ps_busy st - {sysNum},
                    ps_chosen := ps_chosen st @ [sysNum],
                    ps_reshuffles :=
                      ps_reshuffles st @
                        [\<lparr>moveAllocationId = aid, moveFrom = sysNum, moveTo = target\<rparr>]\<rparr>"
      have t: "target \<in> set nra"
        using findTarget_Some Some p by blast
      from True Some p t Cons.IH[of ?st1] show ?thesis
        by (auto simp: Let_def)
    qed
  qed
qed

lemma reshufflePass_chosen:
  "set (ps_chosen (reshufflePass snap req)) \<subseteq> set (nonReservedAll (systemsOf snap))"
  using reshuffleLoop_chosen[of "need req" "nonReservedAll (systemsOf snap)" _
      "nonReservedAll (systemsOf snap)"
      "\<lparr>ps_allocations = allocationsOf snap req, ps_busy = busyOf snap req,
        ps_chosen = [], ps_reshuffles = []\<rparr>"]
  by (simp add: reshufflePass_def)

lemma reshufflePass_targets:
  "moveTo ` set (ps_reshuffles (reshufflePass snap req)) \<subseteq> set (nonReservedAll (systemsOf snap))"
  using reshuffleLoop_targets[of "need req" "nonReservedAll (systemsOf snap)" _
      "nonReservedAll (systemsOf snap)"
      "\<lparr>ps_allocations = allocationsOf snap req, ps_busy = busyOf snap req,
        ps_chosen = [], ps_reshuffles = []\<rparr>"]
  by (simp add: reshufflePass_def)

lemma freeOf_subset: "set (freeOf snap req) \<subseteq> set (nonReservedAll (systemsOf snap))"
  by (auto simp: freeOf_def nonReservedFree_def nonReservedAll_def)

lemma set_nonReservedAll:
  "n \<in> set (nonReservedAll (systemsOf snap)) \<longleftrightarrow>
     (\<exists>sys \<in> set (systemsColl snap). systemNumber sys = n \<and> \<not> isRes (systemsOf snap) sys)"
  by (auto simp: nonReservedAll_def set_systemsOf)

text \<open>Every number of a successful outcome is drawn from \<open>nonReservedAll\<close>.\<close>

lemma outcome_in_nonReservedAll:
  assumes "agentAllocateSingle requestId now snap live = (Ok m chosen moves, live')"
  shows "set chosen \<union> moveTo ` set moves \<subseteq> set (nonReservedAll (systemsOf snap))"
proof -
  from assms obtain req where req: "getRequest (requests snap) requestId = Some req"
    by (auto simp: agentAllocateSingle_def split: option.splits)
  have take_sub: "\<And>k xs. set (take k xs) \<subseteq> set (xs::int list)"
    by (rule set_take_subset)
  from assms req show ?thesis
    using freeOf_subset[of snap req] reshufflePass_chosen[of snap req]
      reshufflePass_targets[of snap req]
      take_sub[of "nat (need req)" "freeOf snap req"]
      take_sub[of "nat (need req)" "ps_chosen (reshufflePass snap req)"]
    by (auto simp: agentAllocateSingle_def Let_def split: if_splits option.splits)
qed

subsection \<open>The reserved sets\<close>

lemma sliceLast_sorted:
  fixes xs :: "int list"
  assumes "sorted xs" and "0 < k"
  shows "set (sliceLast k xs) = {x \<in> set xs. length (filter (\<lambda>y. x < y) xs) < k}"
  using assms(1)
proof (induction xs)
  case Nil
  then show ?case by (simp add: sliceLast_def)
next
  case (Cons a ys)
  then have low: "\<forall>y \<in> set ys. a \<le> y" and srt: "sorted ys"
    by simp_all
  have same: "\<And>x. x \<in> set (a # ys) \<Longrightarrow> filter (\<lambda>y. x < y) (a # ys) = filter (\<lambda>y. x < y) ys"
    using low by auto
  show ?case
  proof (cases "length ys < k")
    case True
    then have "sliceLast k (a # ys) = a # ys"
      using assms(2) by (simp add: sliceLast_def)
    moreover have "\<forall>x \<in> set (a # ys). length (filter (\<lambda>y. x < y) (a # ys)) < k"
    proof
      fix x assume "x \<in> set (a # ys)"
      then have "length (filter (\<lambda>y. x < y) (a # ys)) = length (filter (\<lambda>y. x < y) ys)"
        using same by simp
      also have "\<dots> \<le> length ys" by simp
      finally show "length (filter (\<lambda>y. x < y) (a # ys)) < k" using True by simp
    qed
    then have "{x \<in> set (a # ys). length (filter (\<lambda>y. x < y) (a # ys)) < k} = set (a # ys)"
      by blast
    ultimately show ?thesis by simp
  next
    case False
    then have sl: "sliceLast k (a # ys) = sliceLast k ys"
      using assms(2) by (simp add: sliceLast_def Suc_diff_le)
    have ih: "set (sliceLast k ys) = {x \<in> set ys. length (filter (\<lambda>y. x < y) ys) < k}"
      using Cons.IH srt by simp
    have "a \<notin> set ys \<Longrightarrow> filter (\<lambda>y. a < y) ys = ys"
      using low by (auto simp: filter_id_conv order_less_le)
    then have a_out: "a \<notin> set ys \<Longrightarrow> \<not> length (filter (\<lambda>y. a < y) (a # ys)) < k"
      using False by simp
    have "{x \<in> set (a # ys). length (filter (\<lambda>y. x < y) (a # ys)) < k} =
          {x \<in> set ys. length (filter (\<lambda>y. x < y) ys) < k}" (is "?A = ?B")
    proof
      show "?A \<subseteq> ?B"
      proof
        fix x assume x: "x \<in> ?A"
        then have mem: "x \<in> set (a # ys)" and len: "length (filter (\<lambda>y. x < y) (a # ys)) < k"
          by simp_all
        have "x \<in> set ys" using mem len a_out by (cases "x = a") auto
        moreover have "length (filter (\<lambda>y. x < y) ys) < k" using same[OF mem] len by simp
        ultimately show "x \<in> ?B" by simp
      qed
      show "?B \<subseteq> ?A"
      proof
        fix x assume x: "x \<in> ?B"
        then have mem: "x \<in> set (a # ys)" by simp
        from x have "length (filter (\<lambda>y. x < y) (a # ys)) < k" using same[OF mem] by simp
        with mem show "x \<in> ?A" by simp
      qed
    qed
    then show ?thesis
      unfolding sl ih by simp
  qed
qed

lemma length_filter_sort_key:
  "length (filter P (sort_key f xs)) = length (filter P xs)"
  by (simp add: filter_sort)

lemma set_i7Nums:
  "set (i7Nums (systemsOf snap)) = {n. \<exists>sys \<in> set (systemsColl snap). sys_type sys = I7 \<and> systemNumber sys = n}"
  by (auto simp: i7Nums_def set_systemsOf)

lemma set_i9Nums:
  "set (i9Nums (systemsOf snap)) = {n. \<exists>sys \<in> set (systemsColl snap). sys_type sys = I9 \<and> systemNumber sys = n}"
  by (auto simp: i9Nums_def set_systemsOf)

lemma count_above_i7Nums:
  "length (filter (\<lambda>y. n < y) (i7Nums (systemsOf snap))) =
   length (filter (\<lambda>s. sys_type s = I7 \<and> n < systemNumber s) (systemsColl snap))"
proof -
  have "length (filter (\<lambda>y. n < y) (i7Nums (systemsOf snap))) =
        length (filter (\<lambda>s. n < systemNumber s) (filter (\<lambda>s. sys_type s = I7) (systemsOf snap)))"
    by (simp add: i7Nums_def length_filter_sort_key filter_map)
  also have "\<dots> = length (filter (\<lambda>s. sys_type s = I7 \<and> n < systemNumber s) (systemsOf snap))"
    by (simp add: conj_commute)
  finally show ?thesis
    by (simp add: systemsOf_def length_filter_sort_key)
qed

lemma count_above_i9Nums:
  "length (filter (\<lambda>y. n < y) (i9Nums (systemsOf snap))) =
   length (filter (\<lambda>s. sys_type s = I9 \<and> n < systemNumber s) (systemsColl snap))"
proof -
  have "length (filter (\<lambda>y. n < y) (i9Nums (systemsOf snap))) =
        length (filter (\<lambda>s. n < systemNumber s) (filter (\<lambda>s. sys_type s = I9) (systemsOf snap)))"
    by (simp add: i9Nums_def length_filter_sort_key filter_map)
  also have "\<dots> = length (filter (\<lambda>s. sys_type s = I9 \<and> n < systemNumber s) (systemsOf snap))"
    by (simp add: conj_commute)
  finally show ?thesis
    by (simp add: systemsOf_def length_filter_sort_key)
qed

lemma reservedI7_top:
  "reservedI7 (systemsOf snap) =
     {n. (\<exists>sys \<in> set (systemsColl snap). sys_type sys = I7 \<and> systemNumber sys = n) \<and>
         length (filter (\<lambda>s. sys_type s = I7 \<and> n < systemNumber s) (systemsColl snap)) < 2}"
proof -
  have "sorted (i7Nums (systemsOf snap))" by (simp add: i7Nums_def)
  then have "reservedI7 (systemsOf snap) =
      {x \<in> set (i7Nums (systemsOf snap)). length (filter (\<lambda>y. x < y) (i7Nums (systemsOf snap))) < 2}"
    unfolding reservedI7_def RESERVED_I7_def by (rule sliceLast_sorted) simp
  then show ?thesis
    by (simp add: set_i7Nums count_above_i7Nums)
qed

lemma reservedI9_top:
  "reservedI9 (systemsOf snap) =
     {n. (\<exists>sys \<in> set (systemsColl snap). sys_type sys = I9 \<and> systemNumber sys = n) \<and>
         length (filter (\<lambda>s. sys_type s = I9 \<and> n < systemNumber s) (systemsColl snap)) < 3}"
proof -
  have "sorted (i9Nums (systemsOf snap))" by (simp add: i9Nums_def)
  then have "reservedI9 (systemsOf snap) =
      {x \<in> set (i9Nums (systemsOf snap)). length (filter (\<lambda>y. x < y) (i9Nums (systemsOf snap))) < 3}"
    unfolding reservedI9_def RESERVED_I9_def by (rule sliceLast_sorted) simp
  then show ?thesis
    by (simp add: set_i9Nums count_above_i9Nums)
qed

text \<open>With pairwise different numbers, a number outside its own class's reserved set is outside both.\<close>

lemma not_reserved_either:
  assumes d: "distinct (map systemNumber (systemsColl snap))"
    and sys: "sys \<in> set (systemsColl snap)"
    and nr: "\<not> isRes (systemsOf snap) sys"
  shows "systemNumber sys \<notin> reservedI7 (systemsOf snap) \<and>
         systemNumber sys \<notin> reservedI9 (systemsOf snap)"
proof -
  have inj: "inj_on systemNumber (set (systemsColl snap))"
    using d by (simp add: distinct_map)
  have only: "\<And>s. s \<in> set (systemsColl snap) \<Longrightarrow> systemNumber s = systemNumber sys \<Longrightarrow> s = sys"
    using inj sys by (auto dest: inj_onD)
  show ?thesis
  proof (cases "sys_type sys")
    case I7
    then have a: "systemNumber sys \<notin> reservedI7 (systemsOf snap)"
      using nr by (simp add: isRes_def)
    have "\<not> (\<exists>s \<in> set (systemsColl snap). sys_type s = I9 \<and> systemNumber s = systemNumber sys)"
      using only I7 by force
    then have "systemNumber sys \<notin> reservedI9 (systemsOf snap)"
      by (simp add: reservedI9_top)
    with a show ?thesis by simp
  next
    case I9
    then have a: "systemNumber sys \<notin> reservedI9 (systemsOf snap)"
      using nr by (simp add: isRes_def)
    have "\<not> (\<exists>s \<in> set (systemsColl snap). sys_type s = I7 \<and> systemNumber s = systemNumber sys)"
      using only I9 by force
    then have "systemNumber sys \<notin> reservedI7 (systemsOf snap)"
      by (simp add: reservedI7_top)
    with a show ?thesis by simp
  qed
qed

text \<open>
  Claim C5. No chosen system and no target of a move belongs to a reserved set.
  Every number of a successful outcome is the number of a system of the pool that
  is not in the reserved set of its own class, whatever its stored status; when the
  numbers of the pool are pairwise different, the number is in neither reserved
  set. The reserved set of class i7 consists of the i7 numbers with fewer than two
  i7 systems of a higher number (the top two), that of class i9 of the i9 numbers
  with fewer than three i9 systems of a higher number (the top three).
\<close>

theorem reserved_never_allocated:
  assumes "agentAllocateSingle requestId now snap live = (Ok m chosen moves, live')"
    and "n \<in> set chosen \<union> moveTo ` set moves"
  shows "(\<exists>sys \<in> set (systemsColl snap). systemNumber sys = n \<and> \<not> isRes (systemsOf snap) sys) \<and>
         (distinct (map systemNumber (systemsColl snap)) \<longrightarrow>
            n \<notin> reservedI7 (systemsOf snap) \<and> n \<notin> reservedI9 (systemsOf snap)) \<and>
         reservedI7 (systemsOf snap) =
           {k. (\<exists>sys \<in> set (systemsColl snap). sys_type sys = I7 \<and> systemNumber sys = k) \<and>
               length (filter (\<lambda>s. sys_type s = I7 \<and> k < systemNumber s) (systemsColl snap)) < 2} \<and>
         reservedI9 (systemsOf snap) =
           {k. (\<exists>sys \<in> set (systemsColl snap). sys_type sys = I9 \<and> systemNumber sys = k) \<and>
               length (filter (\<lambda>s. sys_type s = I9 \<and> k < systemNumber s) (systemsColl snap)) < 3}"
proof -
  have "n \<in> set (nonReservedAll (systemsOf snap))"
    using outcome_in_nonReservedAll[OF assms(1)] assms(2) by blast
  then obtain sys where sys: "sys \<in> set (systemsColl snap)" "systemNumber sys = n"
      "\<not> isRes (systemsOf snap) sys"
    using set_nonReservedAll by blast
  then have "distinct (map systemNumber (systemsColl snap)) \<longrightarrow>
            n \<notin> reservedI7 (systemsOf snap) \<and> n \<notin> reservedI9 (systemsOf snap)"
    using not_reserved_either by blast
  with sys show ?thesis
    using reservedI7_top reservedI9_top by blast
qed

theorem reserved_never_allocated_witness:
  "(1::int) \<notin> reservedI7 (systemsOf (labStore (Some 2) labPool [labBooking ''a1'' [2]])) \<and>
   (1::int) \<notin> reservedI9 (systemsOf (labStore (Some 2) labPool [labBooking ''a1'' [2]]))"
proof -
  let ?S = "labStore (Some 2) labPool [labBooking ''a1'' [2]]"
  let ?mv = "\<lparr>moveAllocationId = ''a1'', moveFrom = 2, moveTo = 1\<rparr>"
  have h0: "fst (agentAllocateSingle ''r1'' 42 ?S ?S) = Ok minimal_reshuffle [1, 2] [?mv]"
    by code_simp
  have h1: "agentAllocateSingle ''r1'' 42 ?S ?S =
      (Ok minimal_reshuffle [1, 2] [?mv], snd (agentAllocateSingle ''r1'' 42 ?S ?S))"
    using h0 by (simp add: prod_eq_iff)
  have h2: "(1::int) \<in> set [1, 2] \<union> moveTo ` set [?mv]"
    by simp
  have h3: "distinct (map systemNumber (systemsColl ?S))"
    by code_simp
  from reserved_never_allocated [OF h1 h2] h3 show ?thesis by blast
qed

subsection \<open>Relocations\<close>

lemma getAllocation_updateSystems:
  "getAllocation (updateSystems k sys docs) k' =
     (if k' = k then map_option (\<lambda>a. a\<lparr>al_systems := sys\<rparr>) (getAllocation docs k)
      else getAllocation docs k')"
  by (induction docs) (auto simp: getAllocation_def updateSystems_def)

lemma getAllocation_Some_id: "getAllocation docs k = Some a \<Longrightarrow> al_id a = k"
  by (induction docs) (auto simp: getAllocation_def split: if_splits)

lemma getAllocation_append_other:
  "k \<noteq> al_id d \<Longrightarrow> getAllocation (docs @ [d]) k = getAllocation docs k"
  by (induction docs) (auto simp: getAllocation_def)

lemma getAllocation_replace_other:
  "k \<noteq> al_id d \<Longrightarrow>
   getAllocation (map (\<lambda>a. if al_id a = al_id d then d else a) docs) k = getAllocation docs k"
  by (induction docs) (auto simp: getAllocation_def)

lemma getAllocation_setAllocation_other:
  "k \<noteq> al_id d \<Longrightarrow> getAllocation (setAllocation d docs) k = getAllocation docs k"
  by (simp add: setAllocation_def getAllocation_append_other getAllocation_replace_other)

lemma applyReshuffles_get:
  "applyReshuffles w ms docs = Some docs' \<Longrightarrow> getAllocation docs k = Some a \<Longrightarrow>
   getAllocation docs' k =
     Some (a\<lparr>al_systems :=
              foldl (\<lambda>xs r. swapSystem (moveFrom r) (moveTo r) xs) (al_systems a)
                (filter (\<lambda>r. moveAllocationId r = k) ms)\<rparr>)"
proof (induction ms arbitrary: w)
  case Nil
  then show ?case by simp
next
  case (Cons r rs)
  from Cons.prems(1) have w: "\<not> w" by (cases w) simp_all
  show ?case
  proof (cases "getAllocation docs (moveAllocationId r)")
    case None
    with Cons.prems have "moveAllocationId r \<noteq> k" by auto
    with None w Cons show ?thesis by simp
  next
    case (Some dat)
    let ?docs = "updateSystems (moveAllocationId r)
               (swapSystem (moveFrom r) (moveTo r) (al_systems dat)) docs"
    from Cons.prems(1) Some w have "applyReshuffles True rs ?docs = Some docs'" by simp
    then have rs: "rs = []" and docs': "docs' = ?docs"
      by (simp_all add: applyReshuffles_written split: if_splits)
    show ?thesis
    proof (cases "moveAllocationId r = k")
      case True
      with Some Cons.prems(2) have "dat = a" by simp
      with True Cons.prems(2) show ?thesis
        unfolding docs' rs by (simp add: getAllocation_updateSystems)
    next
      case False
      with Cons.prems(2) show ?thesis
        unfolding docs' rs by (simp add: getAllocation_updateSystems)
    qed
  qed
qed

lemma updateSystems_frame:
  "map (\<lambda>a. a\<lparr>al_systems := []\<rparr>) (updateSystems k sys docs) = map (\<lambda>a. a\<lparr>al_systems := []\<rparr>) docs"
  by (induction docs) (auto simp: updateSystems_def)

lemma applyReshuffles_frame:
  "applyReshuffles w ms docs = Some docs' \<Longrightarrow>
   map (\<lambda>a. a\<lparr>al_systems := []\<rparr>) docs' = map (\<lambda>a. a\<lparr>al_systems := []\<rparr>) docs"
proof (induction ms arbitrary: w)
  case Nil
  then show ?case by simp
next
  case (Cons r rs)
  from Cons.prems have w: "\<not> w" by (cases w) simp_all
  show ?case
  proof (cases "getAllocation docs (moveAllocationId r)")
    case None
    with w Cons show ?thesis by simp
  next
    case (Some dat)
    with Cons.prems w have "docs' = updateSystems (moveAllocationId r)
               (swapSystem (moveFrom r) (moveTo r) (al_systems dat)) docs"
      by (simp add: applyReshuffles_written split: if_splits)
    then show ?thesis
      by (simp add: updateSystems_frame)
  qed
qed

lemma reshuffleLoop_frame:
  "map (\<lambda>a. a\<lparr>al_systems := []\<rparr>) (ps_allocations (reshuffleLoop nd nra sto xs st)) =
   map (\<lambda>a. a\<lparr>al_systems := []\<rparr>) (ps_allocations st)"
proof (induction xs arbitrary: st)
  case Nil
  then show ?case by simp
next
  case (Cons sysNum rest)
  show ?case
  proof (cases "sysNum \<in> ps_busy st")
    case False
    then show ?thesis
      using Cons.IH[of "st\<lparr>ps_chosen := ps_chosen st @ [sysNum]\<rparr>"]
      by (auto simp: Let_def)
  next
    case True
    show ?thesis
    proof (cases "findTarget nra (ps_allocations st) sysNum (sto sysNum)")
      case None
      with True Cons.IH[of st] show ?thesis by auto
    next
      case (Some p)
      obtain aid target where p: "p = (aid, target)" by (cases p)
      let ?st1 = "st\<lparr>ps_allocations :=
                      map (\<lambda>a. if al_id a = aid
                                then a\<lparr>al_systems := swapSystem sysNum target (al_systems a)\<rparr>
                                else a)
                        (ps_allocations st),
                    ps_busy := ps_busy st - {sysNum},
                    ps_chosen := ps_chosen st @ [sysNum],
                    ps_reshuffles :=
                      ps_reshuffles st @
                        [\<lparr>moveAllocationId = aid, moveFrom = sysNum, moveTo = target\<rparr>]\<rparr>"
      have "map (\<lambda>a. a\<lparr>al_systems := []\<rparr>) (ps_allocations ?st1) =
            map (\<lambda>a. a\<lparr>al_systems := []\<rparr>) (ps_allocations st)"
        by (simp add: o_def if_distrib cong: if_cong)
      with True Some p Cons.IH[of ?st1] show ?thesis
        by (auto simp: Let_def)
    qed
  qed
qed

lemma swapSystem_nth:
  "length (swapSystem s t xs) = length xs \<and>
   (\<forall>i < length xs. swapSystem s t xs ! i = (if xs ! i = s then t else xs ! i))"
  by (simp add: swapSystem_def)

text \<open>
  Claim C8. A relocation rewrites only the systems of the commitment it moves, and
  only by putting the target in the place of the source. After a successful attempt
  a commitment stored under a key other than that of the new commitment is the
  same document with its systems rewritten by the moves that name it, one
  replacement of source by target after the other; its date, its times and its
  owning request are as before. The ledger as a whole is the new commitment set
  into a ledger that differs from the stored one in systems only, and the scratch
  copies of the planning phase differ from the snapshot in systems only.
\<close>

theorem relocation_rewrites_systems_only:
  assumes "getRequest (requests snap) requestId = Some req"
    and "agentAllocateSingle requestId now snap live = (Ok m chosen moves, live')"
    and "getAllocation (allocationsColl live) k = Some a"
    and "k \<noteq> planId req now"
  shows "getAllocation (allocationsColl live') k =
           Some (a\<lparr>al_systems :=
                    foldl (\<lambda>xs r. swapSystem (moveFrom r) (moveTo r) xs) (al_systems a)
                      (filter (\<lambda>r. moveAllocationId r = k) moves)\<rparr>) \<and>
         (\<exists>docs. allocationsColl live' = setAllocation (newAllocation req now chosen) docs \<and>
            map (\<lambda>a. a\<lparr>al_systems := []\<rparr>) docs =
              map (\<lambda>a. a\<lparr>al_systems := []\<rparr>) (allocationsColl live)) \<and>
         map (\<lambda>a. a\<lparr>al_systems := []\<rparr>) (ps_allocations (reshufflePass snap req)) =
           map (\<lambda>a. a\<lparr>al_systems := []\<rparr>) (allocationsOf snap req) \<and>
         (\<forall>s t xs. length (swapSystem s t xs) = length xs \<and>
            (\<forall>i < length xs. swapSystem s t xs ! i = (if xs ! i = s then t else xs ! i)))"
proof -
  have "runTransaction req now chosen moves live = Some live'"
    using assms(1,2) by (rule success_run)
  then obtain docs where docs: "applyReshuffles False moves (allocationsColl live) = Some docs"
    and live': "allocationsColl live' = setAllocation (newAllocation req now chosen) docs"
    using runTransaction_SomeD by fastforce
  have "k \<noteq> al_id (newAllocation req now chosen)"
    using assms(4) by (simp add: newAllocation_def)
  then have "getAllocation (allocationsColl live') k = getAllocation docs k"
    unfolding live' by (rule getAllocation_setAllocation_other)
  then have first: "getAllocation (allocationsColl live') k =
           Some (a\<lparr>al_systems :=
                    foldl (\<lambda>xs r. swapSystem (moveFrom r) (moveTo r) xs) (al_systems a)
                      (filter (\<lambda>r. moveAllocationId r = k) moves)\<rparr>)"
    using applyReshuffles_get[OF docs assms(3)] by simp
  have second: "\<exists>docs. allocationsColl live' = setAllocation (newAllocation req now chosen) docs \<and>
            map (\<lambda>a. a\<lparr>al_systems := []\<rparr>) docs =
              map (\<lambda>a. a\<lparr>al_systems := []\<rparr>) (allocationsColl live)"
    using live' applyReshuffles_frame[OF docs] by blast
  have pass: "map (\<lambda>a. a\<lparr>al_systems := []\<rparr>) (ps_allocations (reshufflePass snap req)) =
           map (\<lambda>a. a\<lparr>al_systems := []\<rparr>) (allocationsOf snap req)"
    unfolding reshufflePass_def by (simp add: reshuffleLoop_frame)
  from first second pass show ?thesis
    using swapSystem_nth by blast
qed

theorem relocation_rewrites_systems_only_witness:
  "getAllocation
     (allocationsColl (snd (agentAllocateSingle ''r1'' 42
        (labStore (Some 2) labPool [labBooking ''a1'' [2]])
        (labStore (Some 2) labPool [labBooking ''a1'' [2]])))) ''a1'' =
   Some (labBooking ''a1'' [1])"
proof -
  let ?S = "labStore (Some 2) labPool [labBooking ''a1'' [2]]"
  let ?mv = "\<lparr>moveAllocationId = ''a1'', moveFrom = 2, moveTo = 1\<rparr>"
  let ?r = "labRequest (Some 2)"
  have h0: "fst (agentAllocateSingle ''r1'' 42 ?S ?S) = Ok minimal_reshuffle [1, 2] [?mv]"
    by code_simp
  have h1: "getRequest (requests ?S) ''r1'' = Some ?r"
    by code_simp
  have h2: "agentAllocateSingle ''r1'' 42 ?S ?S =
      (Ok minimal_reshuffle [1, 2] [?mv], snd (agentAllocateSingle ''r1'' 42 ?S ?S))"
    using h0 by (simp add: prod_eq_iff)
  have h3: "getAllocation (allocationsColl ?S) ''a1'' = Some (labBooking ''a1'' [2])"
    by code_simp
  have h4: "''a1'' \<noteq> planId ?r 42"
    by code_simp
  have e: "(labBooking ''a1'' [2])\<lparr>al_systems :=
              foldl (\<lambda>xs r. swapSystem (moveFrom r) (moveTo r) xs) (al_systems (labBooking ''a1'' [2]))
                (filter (\<lambda>r. moveAllocationId r = ''a1'') [?mv])\<rparr> = labBooking ''a1'' [1]"
    by code_simp
  from relocation_rewrites_systems_only [OF h1 h2 h3 h4] e show ?thesis by simp
qed

end
